theory Spec2Isabelle
  imports Complex_Main "HOL-Library.AList"
begin

section \<open>Python values, dictionaries and the object store\<close>

text \<open>
  The module \<^verbatim>\<open>src/data_pipeline/validation.py\<close> works on Python dictionaries: the
  record to validate, the schema, the configuration and the validator's own statistics
  counters. A dictionary is an association list in insertion order (its keys are the
  field names, distinct in every dictionary Python can build); the values a record can
  hold are the JSON-like values below. A float is modelled by the real number it denotes;
  the only floats the module itself produces are the literals \<^verbatim>\<open>0.0\<close>.
\<close>

datatype pyval =
    PNone
  | PBool bool
  | PInt int
  | PFloat real
  | PStr string
  | PList "pyval list"
  | PDict "(string \<times> pyval) list"

type_synonym pydict = "(string \<times> pyval) list"

text \<open>
  Dictionaries are objects: the caller and the validator hold references to them, and two
  references may name the same object. The store maps every address to the dictionary
  that lives there; \<open>next_free\<close> is the first address no object has been created at.
  The logging library is part of the same global state: \<open>audit_log\<close> lists the
  messages handed to the module-level logger, oldest first, and \<open>root_handler\<close> is the
  handler of the root logger, if it has one. A file handler opens its file for appending
  as soon as it is created; whether that succeeds is for the file system to say, and
  \<open>can_open\<close> is its answer for every path. A failure while a record is written is
  handled inside the logging library and never reaches the caller.
\<close>

type_synonym addr = nat

datatype log_level = INFO | WARNING

datatype log_handler = StreamHandler | FileHandler string

datatype log_message =
    DataValidator_initialized
    \<comment> \<open>\<^verbatim>\<open>'DataValidator initialized'\<close>\<close>
  | Schema_validation_requested nat
    \<comment> \<open>\<^verbatim>\<open>f'Schema validation requested for data with {len(data)} fields'\<close>\<close>
  | PHI_detection_scan_initiated nat
    \<comment> \<open>\<^verbatim>\<open>f'PHI detection scan initiated for {len(data)} fields'\<close>\<close>
  | PHI_detected_in_fields "string list"
    \<comment> \<open>\<^verbatim>\<open>f'PHI detected in fields: {detected_fields}'\<close>\<close>
  | Data_quality_assessment_initiated
    \<comment> \<open>\<^verbatim>\<open>'Data quality assessment initiated'\<close>\<close>
  | Validation_statistics_reset
    \<comment> \<open>\<^verbatim>\<open>'Validation statistics reset'\<close>\<close>

record world =
  heap :: "addr \<Rightarrow> pydict"
  next_free :: addr
  audit_log :: "(log_level \<times> log_message) list"
  root_handler :: "log_handler option"
  can_open :: "string \<Rightarrow> bool"

text \<open>
  The faults the statements of the module can raise: on dictionaries, a subscript with a
  missing key and \<^verbatim>\<open>+=\<close> on a value that is not a number; in the logging set-up, a
  file name that is no path (a type error), a path with a null character (a value error)
  and a file that cannot be opened (\<^verbatim>\<open>OSError\<close> stands for its subclasses
  \<^verbatim>\<open>FileNotFoundError\<close>, \<^verbatim>\<open>PermissionError\<close> and \<^verbatim>\<open>IsADirectoryError\<close>, and
  carries the path). A call returns the fault or
  its result, together with the world as the call left it. Adding to a float is written
  on the real number; the rounding of a float sum is not modelled, and no counter of the
  validator is ever a float.
\<close>

datatype py_error = KeyError string | TypeError | ValueError | OSError string

type_synonym 'a outcome = "(py_error + 'a) \<times> world"

definition dict_len :: "pydict \<Rightarrow> nat" where
  "dict_len d = length d"

definition dict_get :: "pydict \<Rightarrow> string \<Rightarrow> pyval \<Rightarrow> pyval" where
  \<comment> \<open>\<^verbatim>\<open>d.get(k, default)\<close>\<close>
  "dict_get d k dflt = (case map_of d k of None \<Rightarrow> dflt | Some v \<Rightarrow> v)"

definition dict_setitem :: "pydict \<Rightarrow> string \<Rightarrow> pyval \<Rightarrow> pydict" where
  \<comment> \<open>\<^verbatim>\<open>d[k] = v\<close>: an existing key keeps its place, a new key goes last\<close>
  "dict_setitem d k v = AList.update k v d"

fun py_add_int :: "pyval \<Rightarrow> int \<Rightarrow> py_error + pyval" where
  \<comment> \<open>\<^verbatim>\<open>v + n\<close> for an int literal \<open>n\<close>\<close>
  "py_add_int (PInt a) n = Inr (PInt (a + n))"
| "py_add_int (PBool b) n = Inr (PInt ((if b then 1 else 0) + n))"
| "py_add_int (PFloat x) n = Inr (PFloat (x + of_int n))"
| "py_add_int PNone n = Inl TypeError"
| "py_add_int (PStr s) n = Inl TypeError"
| "py_add_int (PList xs) n = Inl TypeError"
| "py_add_int (PDict d) n = Inl TypeError"

fun py_truthy :: "pyval \<Rightarrow> bool" where
  \<comment> \<open>the truth value of a value, as \<^verbatim>\<open>if filename:\<close> tests it\<close>
  "py_truthy PNone = False"
| "py_truthy (PBool b) = b"
| "py_truthy (PInt n) = (n \<noteq> 0)"
| "py_truthy (PFloat x) = (x \<noteq> 0)"
| "py_truthy (PStr s) = (s \<noteq> [])"
| "py_truthy (PList xs) = (xs \<noteq> [])"
| "py_truthy (PDict d) = (d \<noteq> [])"

definition logger_info :: "log_message \<Rightarrow> world \<Rightarrow> world" where
  "logger_info m w = w\<lparr>audit_log := audit_log w @ [(INFO, m)]\<rparr>"

definition logger_warning :: "log_message \<Rightarrow> world \<Rightarrow> world" where
  "logger_warning m w = w\<lparr>audit_log := audit_log w @ [(WARNING, m)]\<rparr>"

definition new_dict :: "pydict \<Rightarrow> world \<Rightarrow> addr \<times> world" where
  \<comment> \<open>a dictionary display or \<^verbatim>\<open>.copy()\<close>: a new object at a fresh address\<close>
  "new_dict d w =
     (next_free w, w\<lparr>heap := (heap w)(next_free w := d), next_free := Suc (next_free w)\<rparr>)"

definition dict_iadd :: "addr \<Rightarrow> string \<Rightarrow> int \<Rightarrow> world \<Rightarrow> unit outcome" where
  \<comment> \<open>\<^verbatim>\<open>d[k] += n\<close> on the dictionary object at address \<open>a\<close>\<close>
  "dict_iadd a k n w =
     (case map_of (heap w a) k of
        None \<Rightarrow> (Inl (KeyError k), w)
      | Some v \<Rightarrow>
          (case py_add_int v n of
             Inl e \<Rightarrow> (Inl e, w)
           | Inr v' \<Rightarrow> (Inr (), w\<lparr>heap := (heap w)(a := dict_setitem (heap w a) k v')\<rparr>)))"

section \<open>The class DataValidator\<close>

text \<open>
  The attributes \<^verbatim>\<open>__init__\<close> binds. \<open>validation_stats\<close> is a reference to the
  counters dictionary in the store; the configuration is read at construction only and
  is kept by value.
\<close>

record validator =
  config :: pydict
  audit_log_path :: pyval
  strict_mode :: pyval
  validation_stats :: addr

definition zero_stats :: pydict where
  "zero_stats =
     [(''total_validations'', PInt 0), (''passed'', PInt 0),
      (''failed'', PInt 0), (''warnings'', PInt 0)]"

text \<open>
  \<^verbatim>\<open>logging.basicConfig(filename=..., level=logging.INFO, format=...)\<close> does nothing when
  the root logger already has a handler. Otherwise a false file name (None, the empty
  string, zero) gives a stream handler; any other file name is made into a path
  (\<^verbatim>\<open>os.fspath\<close>: a type error unless it is a string) and the file is opened at once.
  A fault leaves the root logger without a handler.
\<close>

definition FileHandler_init :: "pyval \<Rightarrow> world \<Rightarrow> log_handler outcome" where
  \<comment> \<open>\<^verbatim>\<open>logging.FileHandler(filename, 'a')\<close>\<close>
  "FileHandler_init filename w =
     (case filename of
        PStr path \<Rightarrow>
          (if CHR 0x00 \<in> set path then (Inl ValueError, w)
           else if can_open w path then (Inr (FileHandler path), w)
           else (Inl (OSError path), w))
      | _ \<Rightarrow> (Inl TypeError, w))"

definition basicConfig :: "pyval \<Rightarrow> world \<Rightarrow> unit outcome" where
  "basicConfig filename w =
     (case root_handler w of
        Some h \<Rightarrow> (Inr (), w)
      | None \<Rightarrow>
          (if py_truthy filename then
             (case FileHandler_init filename w of
                (Inl e, w1) \<Rightarrow> (Inl e, w1)
              | (Inr h, w1) \<Rightarrow> (Inr (), w1\<lparr>root_handler := Some h\<rparr>))
           else (Inr (), w\<lparr>root_handler := Some StreamHandler\<rparr>)))"

definition setup_audit_logging :: "pyval \<Rightarrow> world \<Rightarrow> unit outcome" where
  \<comment> \<open>\<^verbatim>\<open>_setup_audit_logging\<close>, given \<^verbatim>\<open>self.audit_log_path\<close>\<close>
  "setup_audit_logging path w =
     (case basicConfig path w of
        (Inl e, w1) \<Rightarrow> (Inl e, w1)
      | (Inr u, w1) \<Rightarrow> (Inr (), logger_info DataValidator_initialized w1))"

definition DataValidator_init :: "pydict option \<Rightarrow> world \<Rightarrow> validator outcome" where
  \<comment> \<open>\<^verbatim>\<open>__init__(self, config=None)\<close>; \<^verbatim>\<open>config or {}\<close> replaces None and the
      empty dictionary by a new empty dictionary; a fault of the logging set-up ends the
      construction before the counters are created\<close>
  "DataValidator_init cfg w =
     (let c = (case cfg of None \<Rightarrow> [] | Some d \<Rightarrow> (if d = [] then [] else d));
          p = dict_get c ''audit_log_path'' (PStr ''validation_audit.log'');
          m = dict_get c ''strict_mode'' (PBool True)
      in case setup_audit_logging p w of
           (Inl e, w1) \<Rightarrow> (Inl e, w1)
         | (Inr u, w1) \<Rightarrow>
             (let (a, w2) = new_dict zero_stats w1
              in (Inr \<lparr>config = c, audit_log_path = p, strict_mode = m,
                       validation_stats = a\<rparr>, w2)))"

definition validate_schema ::
    "validator \<Rightarrow> addr \<Rightarrow> addr \<Rightarrow> world \<Rightarrow> (bool \<times> string list) outcome" where
  "validate_schema self data schema w =
     (let errors = [];
          w1 = logger_info (Schema_validation_requested (dict_len (heap w data))) w
      in case dict_iadd (validation_stats self) ''total_validations'' 1 w1 of
           (Inl e, w2) \<Rightarrow> (Inl e, w2)
         | (Inr u, w2) \<Rightarrow>
             (case dict_iadd (validation_stats self) ''passed'' 1 w2 of
                (Inl e, w3) \<Rightarrow> (Inl e, w3)
              | (Inr u', w3) \<Rightarrow> (Inr (True, errors), w3)))"

definition detect_phi :: "validator \<Rightarrow> addr \<Rightarrow> world \<Rightarrow> (bool \<times> string list) outcome" where
  "detect_phi self data w =
     (let detected_fields = [];
          w1 = logger_info (PHI_detection_scan_initiated (dict_len (heap w data))) w;
          phi_detected = (length detected_fields > 0)
      in if phi_detected then
           (let w2 = logger_warning (PHI_detected_in_fields detected_fields) w1
            in case dict_iadd (validation_stats self) ''warnings'' 1 w2 of
                 (Inl e, w3) \<Rightarrow> (Inl e, w3)
               | (Inr u, w3) \<Rightarrow> (Inr (phi_detected, detected_fields), w3))
         else (Inr (phi_detected, detected_fields), w1))"

definition validate_data_quality :: "validator \<Rightarrow> addr \<Rightarrow> world \<Rightarrow> pydict outcome" where
  "validate_data_quality self data w =
     (let quality_report =
            [(''completeness_score'', PFloat 0), (''consistency_score'', PFloat 0),
             (''accuracy_score'', PFloat 0), (''overall_score'', PFloat 0),
             (''issues'', PList [])];
          w1 = logger_info Data_quality_assessment_initiated w
      in (Inr quality_report, w1))"

definition get_validation_statistics :: "validator \<Rightarrow> world \<Rightarrow> addr outcome" where
  \<comment> \<open>\<^verbatim>\<open>return self.validation_stats.copy()\<close>\<close>
  "get_validation_statistics self w =
     (let (a, w1) = new_dict (heap w (validation_stats self)) w in (Inr a, w1))"

definition reset_statistics :: "validator \<Rightarrow> world \<Rightarrow> validator outcome" where
  \<comment> \<open>rebinds \<^verbatim>\<open>self.validation_stats\<close> to a new dictionary; the result is \<open>self\<close>
      after the call\<close>
  "reset_statistics self w =
     (let (a, w1) = new_dict zero_stats w;
          w2 = logger_info Validation_statistics_reset w1
      in (Inr (self\<lparr>validation_stats := a\<rparr>), w2))"

section \<open>Sessions: a validator and the calls made on it\<close>

text \<open>
  A session is one validator instance and the world it lives in. Between two calls of
  interest the caller may call any method of the instance, create dictionaries of its own
  and overwrite any dictionary it holds a reference to. The methods never hand out the
  reference \<open>validation_stats\<close> itself (\<^verbatim>\<open>get_validation_statistics\<close> returns a copy),
  so the caller's writes go to allocated objects other than the counters dictionary.
  A fault of a call is the caller's to catch; the session goes on from the world the
  faulting call left.
\<close>

datatype call =
    ValidateSchema addr addr
  | DetectPhi addr
  | ValidateDataQuality addr
  | GetValidationStatistics
  | ResetStatistics
  | CallerNew pydict
  | CallerStore addr pydict

fun step :: "call \<Rightarrow> validator \<times> world \<Rightarrow> validator \<times> world" where
  "step (ValidateSchema d s) (v, w) = (v, snd (validate_schema v d s w))"
| "step (DetectPhi d) (v, w) = (v, snd (detect_phi v d w))"
| "step (ValidateDataQuality d) (v, w) = (v, snd (validate_data_quality v d w))"
| "step GetValidationStatistics (v, w) = (v, snd (get_validation_statistics v w))"
| "step ResetStatistics (v, w) =
     (case reset_statistics v w of (Inr v', w') \<Rightarrow> (v', w') | (Inl e, w') \<Rightarrow> (v, w'))"
| "step (CallerNew d) (v, w) = (v, snd (new_dict d w))"
| "step (CallerStore a d) (v, w) =
     (if a < next_free w \<and> a \<noteq> validation_stats v
      then (v, w\<lparr>heap := (heap w)(a := d)\<rparr>) else (v, w))"

fun run :: "call list \<Rightarrow> validator \<times> world \<Rightarrow> validator \<times> world" where
  "run [] s = s"
| "run (c # cs) s = run cs (step c s)"

text \<open>
  The counters dictionary as the validator sees it, the shape \<^verbatim>\<open>__init__\<close> and
  \<^verbatim>\<open>reset_statistics\<close> give it (four int counters in an allocated object), and the
  mapping a call of \<^verbatim>\<open>get_validation_statistics\<close> hands back.
\<close>

definition counter :: "validator \<Rightarrow> world \<Rightarrow> string \<Rightarrow> pyval option" where
  "counter v w k = map_of (heap w (validation_stats v)) k"

definition is_int :: "pyval option \<Rightarrow> bool" where
  "is_int x = (case x of Some (PInt n) \<Rightarrow> True | _ \<Rightarrow> False)"

definition stats_ok :: "validator \<Rightarrow> world \<Rightarrow> bool" where
  "stats_ok v w =
     (validation_stats v < next_free w \<and>
      is_int (counter v w ''total_validations'') \<and> is_int (counter v w ''passed'') \<and>
      is_int (counter v w ''failed'') \<and> is_int (counter v w ''warnings''))"

fun is_validate :: "call \<Rightarrow> bool" where
  "is_validate (ValidateSchema d s) = True"
| "is_validate c = False"

definition validations :: "call list \<Rightarrow> nat" where
  "validations cs = length (filter is_validate cs)"

definition returned_statistics :: "validator \<times> world \<Rightarrow> pydict option" where
  "returned_statistics s =
     (case get_validation_statistics (fst s) (snd s) of
        (Inr a, w1) \<Rightarrow> Some (heap w1 a)
      | (Inl e, w1) \<Rightarrow> None)"

text \<open>
  Two sessions agree on the statistics when they hold the same validator, have allocated
  the same number of objects and their counters dictionaries are equal. Every call keeps
  this relation, whatever else the two stores hold.
\<close>

definition same_statistics :: "validator \<times> world \<Rightarrow> validator \<times> world \<Rightarrow> bool" where
  "same_statistics s t =
     (fst s = fst t \<and> next_free (snd s) = next_free (snd t) \<and>
      heap (snd s) (validation_stats (fst s)) = heap (snd t) (validation_stats (fst t)))"

section \<open>The inputs of the test suite and the spec's scoring rule\<close>

text \<open>
  The records of \<^verbatim>\<open>tests/test_data_pipeline.py\<close>, and a schema in the format the
  docstring of \<^verbatim>\<open>validate_schema\<close> gives
  (\<^verbatim>\<open>{'field_name': {'type': ..., 'required': bool}}\<close>) that requires
  \<^verbatim>\<open>patient_id\<close>, \<^verbatim>\<open>age\<close> and \<^verbatim>\<open>diagnosis_code\<close>, as the spec's end-to-end
  scenarios do. In \<open>test_world\<close> the schema lives at address 0 and the records at
  addresses 1 to 4, logging is not configured yet, and every file can be opened.
\<close>

definition patient_schema :: pydict where
  "patient_schema =
     [(''patient_id'', PDict [(''type'', PStr ''string''), (''required'', PBool True)]),
      (''age'', PDict [(''type'', PStr ''integer''), (''required'', PBool True)]),
      (''diagnosis_code'', PDict [(''type'', PStr ''string''), (''required'', PBool True)])]"

definition valid_record :: pydict where
  "valid_record =
     [(''patient_id'', PStr ''P123456''), (''age'', PInt 45), (''gender'', PStr ''F''),
      (''diagnosis_code'', PStr ''E11.9''),
      (''medication_list'', PList [PStr ''metformin'', PStr ''lisinopril'']),
      (''lab_results'', PDict [(''glucose'', PInt 120), (''hba1c'', PFloat (13 / 2))]),
      (''visit_date'', PStr ''2025-10-15'')]"

definition record_missing_diagnosis_code :: pydict where
  "record_missing_diagnosis_code =
     [(''patient_id'', PStr ''P123456''), (''age'', PInt 45), (''gender'', PStr ''F''),
      (''medication_list'', PList [PStr ''metformin'']),
      (''visit_date'', PStr ''2025-10-15'')]"

definition record_age_as_string :: pydict where
  "record_age_as_string =
     [(''patient_id'', PStr ''P123456''), (''age'', PStr ''forty-five''),
      (''gender'', PStr ''F''), (''diagnosis_code'', PStr ''E11.9''),
      (''medication_list'', PList [PStr ''metformin'']),
      (''visit_date'', PStr ''2025-10-15'')]"

definition record_with_ssn :: pydict where
  "record_with_ssn =
     [(''patient_id'', PStr ''P123456''), (''age'', PInt 45), (''gender'', PStr ''F''),
      (''diagnosis_code'', PStr ''E11.9''), (''ssn'', PStr ''123-45-6789''),
      (''medication_list'', PList [PStr ''metformin'']),
      (''visit_date'', PStr ''2025-10-15'')]"

definition test_world :: world where
  "test_world =
     \<lparr>heap = (\<lambda>a. [])(0 := patient_schema, 1 := valid_record,
               2 := record_missing_diagnosis_code, 3 := record_age_as_string,
               4 := record_with_ssn),
      next_free = 5, audit_log = [], root_handler = None, can_open = (\<lambda>path. True)\<rparr>"

text \<open>
  The completeness score as the spec words it (section 4.3): the required fields of the
  schema that the record holds, over the required fields the schema declares, and 1 when
  it declares none. This definition follows the spec, not the source; it is what the
  result of \<open>validate_data_quality\<close> is compared with.
\<close>

definition spec_required_fields :: "pydict \<Rightarrow> string list" where
  "spec_required_fields schema =
     map fst (filter (\<lambda>(k, fs). case fs of
                                  PDict f \<Rightarrow> map_of f ''required'' = Some (PBool True)
                                | _ \<Rightarrow> False) schema)"

definition spec_completeness_score :: "pydict \<Rightarrow> pydict \<Rightarrow> real" where
  "spec_completeness_score r schema =
     (let req = spec_required_fields schema
      in if req = [] then 1
         else real (length (filter (\<lambda>k. map_of r k \<noteq> None) req)) / real (length req))"

section \<open>Basic facts about the methods\<close>

lemma is_int_iff: "is_int x = (\<exists>n. x = Some (PInt n))"
  by (auto simp: is_int_def split: option.splits pyval.splits)

lemma map_of_setitem:
  "map_of (dict_setitem d k v) k' = (if k' = k then Some v else map_of d k')"
  by (simp add: dict_setitem_def update_conv')

lemma dict_iadd_int:
  "map_of (heap w a) k = Some (PInt n) \<Longrightarrow>
   dict_iadd a k i w = (Inr (), w\<lparr>heap := (heap w)(a := dict_setitem (heap w a) k (PInt (n + i)))\<rparr>)"
  by (simp add: dict_iadd_def)

lemma validate_schema_ok:
  assumes "counter v w ''total_validations'' = Some (PInt t)"
    and "counter v w ''passed'' = Some (PInt p)"
  shows "validate_schema v d s w =
     (Inr (True, []),
      w\<lparr>audit_log := audit_log w @ [(INFO, Schema_validation_requested (dict_len (heap w d)))],
        heap := (heap w)(validation_stats v :=
           dict_setitem (dict_setitem (heap w (validation_stats v)) ''total_validations'' (PInt (t + 1)))
              ''passed'' (PInt (p + 1)))\<rparr>)"
  using assms
  by (simp add: validate_schema_def counter_def logger_info_def dict_iadd_int map_of_setitem Let_def)

lemma detect_phi_eq:
  "detect_phi v d w =
     (Inr (False, []), w\<lparr>audit_log := audit_log w @ [(INFO, PHI_detection_scan_initiated (dict_len (heap w d)))]\<rparr>)"
  by (simp add: detect_phi_def logger_info_def)

lemma init_eq:
  "DataValidator_init cfg w0 = (Inr v, w) \<Longrightarrow>
     validation_stats v = next_free w0 \<and> next_free w = Suc (next_free w0) \<and>
     heap w = (heap w0)(next_free w0 := zero_stats)"
  by (auto simp: DataValidator_init_def new_dict_def setup_audit_logging_def logger_info_def
        basicConfig_def FileHandler_init_def Let_def
      split: option.splits prod.splits sum.splits if_splits pyval.splits)

lemma counter_zero_stats:
  "heap w (validation_stats v) = zero_stats \<Longrightarrow>
   counter v w ''total_validations'' = Some (PInt 0) \<and> counter v w ''passed'' = Some (PInt 0) \<and>
   counter v w ''failed'' = Some (PInt 0) \<and> counter v w ''warnings'' = Some (PInt 0)"
  by (simp add: counter_def zero_stats_def)

lemma init_stats_ok:
  assumes "DataValidator_init cfg w0 = (Inr v, w)"
  shows "stats_ok v w" and "heap w (validation_stats v) = zero_stats"
proof -
  from init_eq [OF assms] show z: "heap w (validation_stats v) = zero_stats" by simp
  from init_eq [OF assms] have "validation_stats v < next_free w" by simp
  with counter_zero_stats [OF z] show "stats_ok v w"
    by (simp add: stats_ok_def is_int_def)
qed

lemma reset_eq:
  "reset_statistics v0 w0 = (Inr v, w) \<Longrightarrow>
     validation_stats v = next_free w0 \<and> next_free w = Suc (next_free w0) \<and>
     heap w = (heap w0)(next_free w0 := zero_stats)"
  by (auto simp: reset_statistics_def new_dict_def logger_info_def Let_def)

lemma reset_stats_ok:
  assumes "reset_statistics v0 w0 = (Inr v, w)"
  shows "stats_ok v w" and "heap w (validation_stats v) = zero_stats"
proof -
  from reset_eq [OF assms] show z: "heap w (validation_stats v) = zero_stats" by simp
  from reset_eq [OF assms] have "validation_stats v < next_free w" by simp
  with counter_zero_stats [OF z] show "stats_ok v w"
    by (simp add: stats_ok_def is_int_def)
qed

lemma reset_total: "\<exists>v w. reset_statistics v0 w0 = (Inr v, w)"
  by (simp add: reset_statistics_def new_dict_def Let_def)

lemma step_keeps_counters:
  assumes ok: "stats_ok v w" and nr: "c \<noteq> ResetStatistics"
    and t: "counter v w ''total_validations'' = Some (PInt t)"
    and p: "counter v w ''passed'' = Some (PInt p)"
    and f: "counter v w ''failed'' = Some (PInt f)"
    and st: "step c (v, w) = (v', w')"
  shows "v' = v \<and> stats_ok v' w' \<and>
     counter v' w' ''total_validations'' = Some (PInt (t + (if is_validate c then 1 else 0))) \<and>
     counter v' w' ''passed'' = Some (PInt (p + (if is_validate c then 1 else 0))) \<and>
     counter v' w' ''failed'' = Some (PInt f)"
proof (cases c)
  case (ValidateSchema d s)
  with st validate_schema_ok [OF t p, of d s] ok t p f show ?thesis
    by (auto simp: stats_ok_def counter_def map_of_setitem is_int_def)
next
  case (DetectPhi d)
  with st ok t p f show ?thesis
    by (auto simp: detect_phi_eq stats_ok_def counter_def)
next
  case (ValidateDataQuality d)
  with st ok t p f show ?thesis
    by (auto simp: validate_data_quality_def logger_info_def stats_ok_def counter_def)
next
  case GetValidationStatistics
  with st ok t p f show ?thesis
    by (auto simp: get_validation_statistics_def new_dict_def stats_ok_def counter_def)
next
  case ResetStatistics
  with nr show ?thesis by simp
next
  case (CallerNew d)
  with st ok t p f show ?thesis
    by (auto simp: new_dict_def stats_ok_def counter_def)
next
  case (CallerStore a d)
  with st ok t p f show ?thesis
    by (auto simp: stats_ok_def counter_def split: if_splits)
qed

lemma step_stats_ok:
  assumes ok: "stats_ok v w" and st: "step c (v, w) = (v', w')"
  shows "stats_ok v' w'"
proof (cases "c = ResetStatistics")
  case True
  obtain v1 w1 where r: "reset_statistics v w = (Inr v1, w1)"
    using reset_total by blast
  with True st have "v' = v1" "w' = w1" by simp_all
  with reset_stats_ok(1) [OF r] show ?thesis by simp
next
  case False
  from ok obtain t p f where
    "counter v w ''total_validations'' = Some (PInt t)"
    "counter v w ''passed'' = Some (PInt p)"
    "counter v w ''failed'' = Some (PInt f)"
    by (auto simp: stats_ok_def is_int_iff)
  from step_keeps_counters [OF ok False this st] show ?thesis by blast
qed

lemma run_stats_ok:
  "stats_ok v w \<Longrightarrow> run cs (v, w) = (v', w') \<Longrightarrow> stats_ok v' w'"
proof (induction cs arbitrary: v w)
  case Nil
  then show ?case by simp
next
  case (Cons c cs)
  obtain v1 w1 where s: "step c (v, w) = (v1, w1)" by (cases "step c (v, w)")
  from step_stats_ok [OF Cons.prems(1) s] have "stats_ok v1 w1" .
  moreover from Cons.prems(2) s have "run cs (v1, w1) = (v', w')" by simp
  ultimately show ?case by (rule Cons.IH)
qed

lemma run_counts:
  "stats_ok v w \<Longrightarrow> ResetStatistics \<notin> set cs \<Longrightarrow>
   counter v w ''total_validations'' = Some (PInt t) \<Longrightarrow>
   counter v w ''passed'' = Some (PInt p) \<Longrightarrow>
   counter v w ''failed'' = Some (PInt f) \<Longrightarrow>
   run cs (v, w) = (v', w') \<Longrightarrow>
   v' = v \<and>
   counter v' w' ''total_validations'' = Some (PInt (t + int (validations cs))) \<and>
   counter v' w' ''passed'' = Some (PInt (p + int (validations cs))) \<and>
   counter v' w' ''failed'' = Some (PInt f)"
proof (induction cs arbitrary: v w t p f)
  case Nil
  then show ?case by (simp add: validations_def)
next
  case (Cons c cs)
  obtain v1 w1 where s: "step c (v, w) = (v1, w1)" by (cases "step c (v, w)")
  from Cons.prems(2) have nr: "c \<noteq> ResetStatistics" and nrs: "ResetStatistics \<notin> set cs"
    by auto
  note k = step_keeps_counters [OF Cons.prems(1) nr Cons.prems(3,4,5) s]
  from Cons.prems(6) s have r: "run cs (v1, w1) = (v', w')" by simp
  from k have ok1: "stats_ok v1 w1" by blast
  from k have t1: "counter v1 w1 ''total_validations'' = Some (PInt (t + (if is_validate c then 1 else 0)))"
    and p1: "counter v1 w1 ''passed'' = Some (PInt (p + (if is_validate c then 1 else 0)))"
    and f1: "counter v1 w1 ''failed'' = Some (PInt f)" by blast+
  from k have e: "v1 = v" by blast
  from Cons.IH [OF ok1 nrs t1 p1 f1 r] e show ?case
    by (auto simp: validations_def)
qed

lemma validate_schema_result:
  assumes "stats_ok v w"
  shows "fst (validate_schema v d s w) = Inr (True, [])"
proof -
  from assms obtain t p where
    "counter v w ''total_validations'' = Some (PInt t)"
    "counter v w ''passed'' = Some (PInt p)"
    by (auto simp: stats_ok_def is_int_iff)
  from validate_schema_ok [OF this] show ?thesis by simp
qed

lemma init_default_path:
  assumes "dict_get c ''audit_log_path'' (PStr ''validation_audit.log'')
             = PStr ''validation_audit.log''"
    and "cfg = None \<and> c = [] \<or> cfg = Some c"
  shows "fst (DataValidator_init cfg w0) =
     (if root_handler w0 = None \<and> \<not> can_open w0 ''validation_audit.log''
      then Inl (OSError ''validation_audit.log'')
      else Inr \<lparr>config = c, audit_log_path = PStr ''validation_audit.log'',
                strict_mode = dict_get c ''strict_mode'' (PBool True),
                validation_stats = next_free w0\<rparr>)"
  using assms
  by (auto simp: DataValidator_init_def new_dict_def setup_audit_logging_def logger_info_def
        basicConfig_def FileHandler_init_def Let_def split: option.splits)

lemma init_test_world:
  "(\<exists>v w. DataValidator_init None test_world = (Inr v, w)) \<and>
   (\<exists>v w. DataValidator_init (Some patient_schema) test_world = (Inr v, w))"
proof -
  have c: "can_open test_world ''validation_audit.log''" by (simp add: test_world_def)
  have "dict_get [] ''audit_log_path'' (PStr ''validation_audit.log'')
          = PStr ''validation_audit.log''" by (simp add: dict_get_def)
  from init_default_path [OF this, of None test_world] c
  have 1: "\<exists>v. fst (DataValidator_init None test_world) = Inr v" by simp
  have "dict_get patient_schema ''audit_log_path'' (PStr ''validation_audit.log'')
          = PStr ''validation_audit.log''" by (simp add: dict_get_def patient_schema_def)
  from init_default_path [OF this, of "Some patient_schema" test_world] c
  have 2: "\<exists>v. fst (DataValidator_init (Some patient_schema) test_world) = Inr v" by simp
  from 1 2 show ?thesis by (metis prod.collapse)
qed

lemma get_validation_statistics_eq:
  "get_validation_statistics v w =
     (Inr (next_free w),
      w\<lparr>heap := (heap w)(next_free w := heap w (validation_stats v)),
        next_free := Suc (next_free w)\<rparr>)"
  by (simp add: get_validation_statistics_def new_dict_def)

lemma returned_statistics_eq:
  "returned_statistics s = Some (heap (snd s) (validation_stats (fst s)))"
  by (simp add: returned_statistics_def get_validation_statistics_eq)

lemma dict_iadd_same:
  assumes "next_free w = next_free u" and "heap w a = heap u a"
  shows "fst (dict_iadd a k n w) = fst (dict_iadd a k n u) \<and>
         next_free (snd (dict_iadd a k n w)) = next_free (snd (dict_iadd a k n u)) \<and>
         heap (snd (dict_iadd a k n w)) a = heap (snd (dict_iadd a k n u)) a"
  using assms by (simp add: dict_iadd_def split: option.splits sum.splits)

lemma validate_schema_same:
  assumes "next_free w = next_free u"
    and "heap w (validation_stats v) = heap u (validation_stats v)"
  shows "next_free (snd (validate_schema v d s w)) = next_free (snd (validate_schema v d s u)) \<and>
         heap (snd (validate_schema v d s w)) (validation_stats v) =
         heap (snd (validate_schema v d s u)) (validation_stats v)"
proof -
  let ?a = "validation_stats v"
  let ?w1 = "logger_info (Schema_validation_requested (dict_len (heap w d))) w"
  let ?u1 = "logger_info (Schema_validation_requested (dict_len (heap u d))) u"
  have 1: "next_free ?w1 = next_free ?u1" "heap ?w1 ?a = heap ?u1 ?a"
    using assms by (simp_all add: logger_info_def)
  note A = dict_iadd_same [OF 1, of "''total_validations''" 1]
  obtain x w2 where w2: "dict_iadd ?a ''total_validations'' 1 ?w1 = (x, w2)"
    by (cases "dict_iadd ?a ''total_validations'' 1 ?w1")
  obtain y u2 where u2: "dict_iadd ?a ''total_validations'' 1 ?u1 = (y, u2)"
    by (cases "dict_iadd ?a ''total_validations'' 1 ?u1")
  from A w2 u2 have xy: "y = x" and 2: "next_free w2 = next_free u2" "heap w2 ?a = heap u2 ?a"
    by simp_all
  from u2 xy have u2': "dict_iadd ?a ''total_validations'' 1 ?u1 = (x, u2)" by simp
  note B = dict_iadd_same [OF 2, of "''passed''" 1]
  show ?thesis
  proof (cases x)
    case (Inl e)
    from 2 show ?thesis
      by (simp add: validate_schema_def Let_def w2 u2' Inl)
  next
    case (Inr z)
    obtain x3 w3 where w3: "dict_iadd ?a ''passed'' 1 w2 = (x3, w3)"
      by (cases "dict_iadd ?a ''passed'' 1 w2")
    obtain y3 u3 where u3: "dict_iadd ?a ''passed'' 1 u2 = (y3, u3)"
      by (cases "dict_iadd ?a ''passed'' 1 u2")
    from B w3 u3 have 3: "next_free w3 = next_free u3" "heap w3 ?a = heap u3 ?a"
      by simp_all
    from 3 show ?thesis
      by (simp add: validate_schema_def Let_def w2 u2' Inr w3 u3 split: sum.splits)
  qed
qed

lemma step_same_statistics:
  assumes "same_statistics s t"
  shows "same_statistics (step c s) (step c t)"
proof -
  obtain v w where s: "s = (v, w)" by (cases s)
  obtain v' u where t0: "t = (v', u)" by (cases t)
  from assms s t0 have t: "t = (v, u)" and n: "next_free w = next_free u"
    and h: "heap w (validation_stats v) = heap u (validation_stats v)"
    by (auto simp: same_statistics_def)
  show ?thesis
  proof (cases c)
    case (ValidateSchema d sc)
    with validate_schema_same [OF n h, of d sc] s t show ?thesis
      by (simp add: same_statistics_def)
  next
    case (DetectPhi d)
    with s t n h show ?thesis by (simp add: same_statistics_def detect_phi_eq)
  next
    case (ValidateDataQuality d)
    with s t n h show ?thesis
      by (simp add: same_statistics_def validate_data_quality_def logger_info_def)
  next
    case GetValidationStatistics
    with s t n h show ?thesis
      by (simp add: same_statistics_def get_validation_statistics_eq)
  next
    case ResetStatistics
    with s t n h show ?thesis
      by (simp add: same_statistics_def reset_statistics_def new_dict_def logger_info_def)
  next
    case (CallerNew d)
    with s t n h show ?thesis by (simp add: same_statistics_def new_dict_def)
  next
    case (CallerStore a d)
    with s t n h show ?thesis by (simp add: same_statistics_def)
  qed
qed

lemma run_same_statistics:
  "same_statistics s t \<Longrightarrow> same_statistics (run cs s) (run cs t)"
  by (induction cs arbitrary: s t) (simp_all add: step_same_statistics)

lemma reachable_stats_ok:
  assumes "DataValidator_init cfg w0 = (Inr v, w)" and "run cs (v, w) = (v', w')"
  shows "stats_ok v' w'"
  using init_stats_ok(1) [OF assms(1)] assms(2) by (rule run_stats_ok)

lemma validations_all_validate:
  "validations (map (\<lambda>(r, s). ValidateSchema r s) xs) = length xs"
  by (induction xs) (auto simp: validations_def)

section \<open>Schema validation: required fields and types\<close>

text \<open>
  Claim C1. For a schema that declares a field as required and a record in which the field
  is absent, the errors of the validation result are to hold a message naming the field
  and the result is to be invalid. The body of \<open>validate_schema\<close> never looks at the
  schema: on the record of the test suite that lacks \<^verbatim>\<open>diagnosis_code\<close>, validated
  against a schema that requires it, the result is \<open>(True, [])\<close>.
\<close>

theorem missing_required_field_is_accepted:
  "\<exists>v w.
     DataValidator_init (Some patient_schema) test_world = (Inr v, w) \<and>
     heap w 0 = patient_schema \<and> heap w 2 = record_missing_diagnosis_code \<and>
     ''diagnosis_code'' \<in> set (spec_required_fields patient_schema) \<and>
     map_of record_missing_diagnosis_code ''diagnosis_code'' = None \<and>
     fst (validate_schema v 2 0 w) = Inr (True, [])"
proof -
  obtain v w where i: "DataValidator_init (Some patient_schema) test_world = (Inr v, w)"
    using init_test_world by blast
  from init_eq [OF i] have h: "heap w 0 = patient_schema" "heap w 2 = record_missing_diagnosis_code"
    by (simp_all add: test_world_def)
  have r: "''diagnosis_code'' \<in> set (spec_required_fields patient_schema)"
    by (simp add: spec_required_fields_def patient_schema_def)
  have m: "map_of record_missing_diagnosis_code ''diagnosis_code'' = None"
    by (simp add: record_missing_diagnosis_code_def)
  from validate_schema_result [OF init_stats_ok(1) [OF i], of 2 0] i h r m
  show ?thesis by blast
qed

text \<open>
  Claim C2. A field typed Integer that holds a string is to yield a type error naming the
  field. On the record of the test suite whose \<^verbatim>\<open>age\<close> is the string
  \<^verbatim>\<open>"forty-five"\<close>, against a schema that types \<^verbatim>\<open>age\<close> as integer, the result of
  \<open>validate_schema\<close> is again \<open>(True, [])\<close>: no type error is reported. (No value is
  coerced either; the record is not read beyond its length.)
\<close>

theorem string_for_integer_field_is_accepted:
  "\<exists>v w.
     DataValidator_init (Some patient_schema) test_world = (Inr v, w) \<and>
     heap w 0 = patient_schema \<and> heap w 3 = record_age_as_string \<and>
     map_of patient_schema ''age'' =
       Some (PDict [(''type'', PStr ''integer''), (''required'', PBool True)]) \<and>
     map_of record_age_as_string ''age'' = Some (PStr ''forty-five'') \<and>
     fst (validate_schema v 3 0 w) = Inr (True, [])"
proof -
  obtain v w where i: "DataValidator_init (Some patient_schema) test_world = (Inr v, w)"
    using init_test_world by blast
  from init_eq [OF i] have h: "heap w 0 = patient_schema" "heap w 3 = record_age_as_string"
    by (simp_all add: test_world_def)
  have r: "map_of patient_schema ''age'' =
       Some (PDict [(''type'', PStr ''integer''), (''required'', PBool True)])"
    by (simp add: patient_schema_def)
  have m: "map_of record_age_as_string ''age'' = Some (PStr ''forty-five'')"
    by (simp add: record_age_as_string_def)
  from validate_schema_result [OF init_stats_ok(1) [OF i], of 3 0] i h r m
  show ?thesis by blast
qed

section \<open>PHI detection on a field named ssn\<close>

text \<open>
  Claim C3. For a record with a field whose name is on the PHI deny-list, such as
  \<^verbatim>\<open>ssn\<close> with value \<^verbatim>\<open>"123-45-6789"\<close>, \<open>detect_phi\<close> is to return at least one
  finding for that field. On the record of the test suite that holds this field the
  source returns \<open>(False, [])\<close>: nothing is detected, and the list of detected fields
  (field names only, with no category or confidence) is empty.
\<close>

theorem ssn_field_is_not_detected:
  "\<exists>v w.
     DataValidator_init (Some patient_schema) test_world = (Inr v, w) \<and>
     heap w 4 = record_with_ssn \<and>
     map_of record_with_ssn ''ssn'' = Some (PStr ''123-45-6789'') \<and>
     fst (detect_phi v 4 w) = Inr (False, [])"
proof -
  obtain v w where i: "DataValidator_init (Some patient_schema) test_world = (Inr v, w)"
    using init_test_world by blast
  from init_eq [OF i] have h: "heap w 4 = record_with_ssn"
    by (simp add: test_world_def)
  have m: "map_of record_with_ssn ''ssn'' = Some (PStr ''123-45-6789'')"
    by (simp add: record_with_ssn_def)
  have "fst (detect_phi v 4 w) = Inr (False, [])" by (simp add: detect_phi_eq)
  with i h m show ?thesis by blast
qed

section \<open>Determinism of validation\<close>

text \<open>
  Claim C4. Two calls of validation on the same record and schema, on the same validator
  instance and in any order relative to other calls, return identical results. Stated for
  \<open>validate_schema\<close>, whose result is the pair of the validity flag and the error list
  (it has no separate list of warnings): after construction and any calls \<open>cs1\<close>, the
  result of a first call equals the result of a second call made after any further calls
  \<open>cs2\<close>, and both are results, not faults. The calls in between may be any methods of
  the instance, a reset of the statistics included, and any writes of the caller to its
  own dictionaries.
\<close>

theorem validate_schema_deterministic:
  assumes "DataValidator_init cfg w0 = (Inr v, w)"
    and "run cs1 (v, w) = (v1, w1)"
    and "run cs2 (v1, snd (validate_schema v1 r s w1)) = (v2, w2)"
  shows "fst (validate_schema v2 r s w2) = fst (validate_schema v1 r s w1) \<and>
         (\<exists>is_valid errors. fst (validate_schema v1 r s w1) = Inr (is_valid, errors))"
proof -
  have ok1: "stats_ok v1 w1"
    using assms(1,2) by (rule reachable_stats_ok)
  have "step (ValidateSchema r s) (v1, w1) = (v1, snd (validate_schema v1 r s w1))"
    by simp
  with ok1 have "stats_ok v1 (snd (validate_schema v1 r s w1))"
    by (rule step_stats_ok)
  then have ok2: "stats_ok v2 w2"
    using assms(3) by (rule run_stats_ok)
  from validate_schema_result [OF ok1, of r s] validate_schema_result [OF ok2, of r s]
  show ?thesis by auto
qed

theorem validate_schema_deterministic_witness:
  "\<exists>v w v2 w2.
     DataValidator_init (Some patient_schema) test_world = (Inr v, w) \<and>
     run [DetectPhi 4, ResetStatistics, ValidateSchema 1 0] (v, snd (validate_schema v 3 0 w))
       = (v2, w2) \<and>
     fst (validate_schema v2 3 0 w2) = fst (validate_schema v 3 0 w)"
proof -
  obtain v w where i: "DataValidator_init (Some patient_schema) test_world = (Inr v, w)"
    using init_test_world by blast
  have r1: "run [] (v, w) = (v, w)" by simp
  obtain v2 w2 where
    r2: "run [DetectPhi 4, ResetStatistics, ValidateSchema 1 0]
           (v, snd (validate_schema v 3 0 w)) = (v2, w2)"
    by (cases "run [DetectPhi 4, ResetStatistics, ValidateSchema 1 0]
           (v, snd (validate_schema v 3 0 w))")
  from validate_schema_deterministic [OF i r1 r2] i r2 show ?thesis by blast
qed

section \<open>Conservation of the statistics\<close>

text \<open>
  Claim C5. Starting from freshly initialised or freshly reset statistics, after a
  sequence of calls that holds \<open>N\<close> validation calls (and no reset),
  \<^verbatim>\<open>total_validations\<close> is \<open>N\<close> and \<^verbatim>\<open>passed\<close> plus \<^verbatim>\<open>failed\<close> is \<open>N\<close>; one more
  validation call raises \<^verbatim>\<open>total_validations\<close> by one and exactly one of
  \<^verbatim>\<open>passed\<close> and \<^verbatim>\<open>failed\<close> by one (it is always \<^verbatim>\<open>passed\<close>). The sequence may hold
  other calls between the validations; \<open>validations cs\<close> counts the validation calls, and
  is the length of a sequence made of validation calls only. The calls are sequential:
  threads are not part of this model.
\<close>

theorem statistics_conservation:
  assumes "DataValidator_init cfg w0 = (Inr v, w) \<or> reset_statistics v0 w0 = (Inr v, w)"
    and "ResetStatistics \<notin> set cs"
    and "run cs (v, w) = (v', w')"
  shows "\<exists>p f.
     counter v' w' ''total_validations'' = Some (PInt (int (validations cs))) \<and>
     counter v' w' ''passed'' = Some (PInt p) \<and>
     counter v' w' ''failed'' = Some (PInt f) \<and>
     p + f = int (validations cs) \<and>
     (\<forall>r s. counter v' (snd (validate_schema v' r s w')) ''total_validations''
              = Some (PInt (int (validations cs) + 1)) \<and>
            counter v' (snd (validate_schema v' r s w')) ''passed'' = Some (PInt (p + 1)) \<and>
            counter v' (snd (validate_schema v' r s w')) ''failed'' = Some (PInt f))"
proof -
  from assms(1) have ok: "stats_ok v w" and z: "heap w (validation_stats v) = zero_stats"
    using init_stats_ok reset_stats_ok by blast+
  note c0 = counter_zero_stats [OF z]
  from c0 have t0: "counter v w ''total_validations'' = Some (PInt 0)"
    and p0: "counter v w ''passed'' = Some (PInt 0)"
    and f0: "counter v w ''failed'' = Some (PInt 0)" by blast+
  note n = run_counts [OF ok assms(2) t0 p0 f0 assms(3)]
  from n have t: "counter v' w' ''total_validations'' = Some (PInt (int (validations cs)))"
    and p: "counter v' w' ''passed'' = Some (PInt (int (validations cs)))"
    and f: "counter v' w' ''failed'' = Some (PInt 0)" by auto
  have ok': "stats_ok v' w'" using ok assms(3) by (rule run_stats_ok)
  have nxt: "counter v' (snd (validate_schema v' r s w')) ''total_validations''
          = Some (PInt (int (validations cs) + 1)) \<and>
        counter v' (snd (validate_schema v' r s w')) ''passed''
          = Some (PInt (int (validations cs) + 1)) \<and>
        counter v' (snd (validate_schema v' r s w')) ''failed'' = Some (PInt 0)" for r s
  proof -
    have st: "step (ValidateSchema r s) (v', w') = (v', snd (validate_schema v' r s w'))"
      by simp
    have nr: "ValidateSchema r s \<noteq> ResetStatistics" by simp
    from step_keeps_counters [OF ok' nr t p f st] show ?thesis by simp
  qed
  from t p f nxt show ?thesis by simp
qed

theorem statistics_conservation_witness:
  "\<exists>v0 w0 v w v' w'.
     DataValidator_init None test_world = (Inr v0, w0) \<and>
     reset_statistics v0 (snd (validate_schema v0 1 0 w0)) = (Inr v, w) \<and>
     run [ValidateSchema 1 0, DetectPhi 4, ValidateSchema 2 0, ValidateSchema 3 0] (v, w)
       = (v', w') \<and>
     counter v' w' ''total_validations'' = Some (PInt 3) \<and>
     (\<exists>p f. counter v' w' ''passed'' = Some (PInt p) \<and>
            counter v' w' ''failed'' = Some (PInt f) \<and> p + f = 3)"
proof -
  let ?cs = "[ValidateSchema 1 0, DetectPhi 4, ValidateSchema 2 0, ValidateSchema 3 0]"
  obtain v0 w0 where i: "DataValidator_init None test_world = (Inr v0, w0)"
    using init_test_world by blast
  obtain v w where z: "reset_statistics v0 (snd (validate_schema v0 1 0 w0)) = (Inr v, w)"
    using reset_total by blast
  then have a: "DataValidator_init None (snd (validate_schema v0 1 0 w0)) = (Inr v, w) \<or>
      reset_statistics v0 (snd (validate_schema v0 1 0 w0)) = (Inr v, w)" by simp
  have b: "ResetStatistics \<notin> set ?cs" by simp
  obtain v' w' where r: "run ?cs (v, w) = (v', w')" by (cases "run ?cs (v, w)")
  have n: "int (validations ?cs) = 3" by (simp add: validations_def)
  from statistics_conservation [OF a b r] obtain p f where
    "counter v' w' ''total_validations'' = Some (PInt (int (validations ?cs)))"
    "counter v' w' ''passed'' = Some (PInt p)" "counter v' w' ''failed'' = Some (PInt f)"
    "p + f = int (validations ?cs)" by blast
  with n i z r show ?thesis by auto
qed

section \<open>PHI detection leaves the record alone\<close>

text \<open>
  Claim C6. For every record, \<open>detect_phi\<close> never mutates it: the record object the
  caller passed holds the same dictionary after the call as before, whatever the
  validator, the store and the address of the record (the validator's own counters
  dictionary included). The call changes no object of the store at all, so it redacts
  and alters nothing; its only effect is one line in the audit log.
\<close>

theorem detect_phi_never_mutates_record:
  "heap (snd (detect_phi v r w)) r = heap w r \<and>
   heap (snd (detect_phi v r w)) = heap w \<and>
   next_free (snd (detect_phi v r w)) = next_free w"
  by (simp add: detect_phi_eq)

section \<open>Validation and detection never raise\<close>

text \<open>
  Claim C7. For every record, however malformed, validation and PHI detection never raise
  a fault: after construction and any sequence of calls, \<open>validate_schema\<close> returns a
  pair of a flag and an error list and \<open>detect_phi\<close> returns a pair of a flag and a list
  of fields, for every record and schema object, whatever dictionaries they hold. In
  particular \<open>detect_phi\<close> does not raise the not-implemented fault the test suite
  expects. A record is a dictionary, as the parameter's annotation says.
\<close>

theorem validation_never_raises:
  assumes "DataValidator_init cfg w0 = (Inr v, w)"
    and "run cs (v, w) = (v', w')"
  shows "(\<exists>is_valid errors. fst (validate_schema v' r s w') = Inr (is_valid, errors)) \<and>
         (\<exists>phi_detected detected_fields.
            fst (detect_phi v' r w') = Inr (phi_detected, detected_fields))"
proof -
  have "stats_ok v' w'" using assms by (rule reachable_stats_ok)
  then have "fst (validate_schema v' r s w') = Inr (True, [])"
    by (rule validate_schema_result)
  moreover have "fst (detect_phi v' r w') = Inr (False, [])"
    by (simp add: detect_phi_eq)
  ultimately show ?thesis by auto
qed

theorem validation_never_raises_witness:
  "\<exists>v w v' w'.
     DataValidator_init (Some patient_schema) test_world = (Inr v, w) \<and>
     run [CallerNew [(''age'', PNone), (''42'', PList [PDict []])], ValidateSchema 5 5,
          CallerStore 3 [], DetectPhi 3] (v, w) = (v', w') \<and>
     (\<exists>is_valid errors. fst (validate_schema v' 3 0 w') = Inr (is_valid, errors)) \<and>
     (\<exists>phi_detected detected_fields.
        fst (detect_phi v' 6 w') = Inr (phi_detected, detected_fields))"
proof -
  let ?cs = "[CallerNew [(''age'', PNone), (''42'', PList [PDict []])], ValidateSchema 5 5,
          CallerStore 3 [], DetectPhi 3]"
  obtain v w where i: "DataValidator_init (Some patient_schema) test_world = (Inr v, w)"
    using init_test_world by blast
  obtain v' w' where r: "run ?cs (v, w) = (v', w')" by (cases "run ?cs (v, w)")
  from validation_never_raises [OF i r, of 3 0] validation_never_raises [OF i r, of 6 0] i r
  show ?thesis by blast
qed

section \<open>Construction with an empty configuration\<close>




section \<open>The completeness score\<close>

text \<open>
  Claim C9. The completeness score of the quality report is to be the number of required
  fields present in the record over the number of required fields the schema declares,
  and 1 when the schema declares none. \<open>validate_data_quality\<close> takes no schema and
  returns the score \<^verbatim>\<open>0.0\<close> for every record: for the complete record of the test suite
  the spec's rule gives 1, against the schema of the tests and against the empty schema
  alike, and the source gives 0.
\<close>

theorem completeness_score_is_always_zero:
  "\<exists>v w q.
     DataValidator_init (Some patient_schema) test_world = (Inr v, w) \<and>
     heap w 1 = valid_record \<and>
     fst (validate_data_quality v 1 w) = Inr q \<and>
     map_of q ''completeness_score'' = Some (PFloat 0) \<and>
     spec_completeness_score valid_record patient_schema = 1 \<and>
     spec_completeness_score valid_record [] = 1"
proof -
  obtain v w where i: "DataValidator_init (Some patient_schema) test_world = (Inr v, w)"
    using init_test_world by blast
  from init_eq [OF i] have h: "heap w 1 = valid_record"
    by (simp add: test_world_def)
  have s1: "spec_completeness_score valid_record patient_schema = 1"
    by (simp add: spec_completeness_score_def spec_required_fields_def patient_schema_def
          valid_record_def)
  have s2: "spec_completeness_score valid_record [] = 1"
    by (simp add: spec_completeness_score_def spec_required_fields_def)
  have "\<exists>q. fst (validate_data_quality v 1 w) = Inr q \<and>
          map_of q ''completeness_score'' = Some (PFloat 0)"
    by (simp add: validate_data_quality_def)
  with i h s1 s2 show ?thesis by blast
qed

section \<open>The statistics are handed out as a copy\<close>

text \<open>
  Claim C10. \<open>get_validation_statistics\<close> returns a copy of the counters: after
  construction and any sequence of calls, the returned object holds the validator's
  current statistics and is another object than the validator's own dictionary. Whatever
  the caller then writes into the returned object, the validator's dictionary is
  unchanged, and after any further calls a later \<open>get_validation_statistics\<close> returns
  the same mapping as it would have returned without the write.
\<close>

theorem get_validation_statistics_returns_copy:
  assumes "DataValidator_init cfg w0 = (Inr v, w)"
    and "run cs (v, w) = (v', w')"
  shows "\<exists>a w1.
     get_validation_statistics v' w' = (Inr a, w1) \<and>
     heap w1 a = heap w' (validation_stats v') \<and>
     a \<noteq> validation_stats v' \<and>
     heap w1 (validation_stats v') = heap w' (validation_stats v') \<and>
     (\<forall>d. heap (w1\<lparr>heap := (heap w1)(a := d)\<rparr>) (validation_stats v')
            = heap w' (validation_stats v')) \<and>
     (\<forall>d cs2. returned_statistics (run cs2 (v', w1\<lparr>heap := (heap w1)(a := d)\<rparr>))
               = returned_statistics (run cs2 (v', w1)))"
proof -
  let ?a = "next_free w'"
  let ?w1 = "w'\<lparr>heap := (heap w')(?a := heap w' (validation_stats v')),
                next_free := Suc ?a\<rparr>"
  have "stats_ok v' w'" using assms by (rule reachable_stats_ok)
  then have ne: "?a \<noteq> validation_stats v'" by (simp add: stats_ok_def)
  have g: "get_validation_statistics v' w' = (Inr ?a, ?w1)"
    by (rule get_validation_statistics_eq)
  have 1: "heap ?w1 ?a = heap w' (validation_stats v')" by simp
  from ne have 2: "heap ?w1 (validation_stats v') = heap w' (validation_stats v')" by simp
  from ne have 3: "heap (?w1\<lparr>heap := (heap ?w1)(?a := d)\<rparr>) (validation_stats v')
            = heap w' (validation_stats v')" for d by simp
  have 4: "returned_statistics (run cs2 (v', ?w1\<lparr>heap := (heap ?w1)(?a := d)\<rparr>))
               = returned_statistics (run cs2 (v', ?w1))" for d cs2
  proof -
    from ne have "same_statistics (v', ?w1\<lparr>heap := (heap ?w1)(?a := d)\<rparr>) (v', ?w1)"
      by (simp add: same_statistics_def)
    then have "same_statistics (run cs2 (v', ?w1\<lparr>heap := (heap ?w1)(?a := d)\<rparr>))
                 (run cs2 (v', ?w1))"
      by (rule run_same_statistics)
    then show ?thesis
      unfolding returned_statistics_eq same_statistics_def by (elim conjE) (rule arg_cong)
  qed
  from g 1 ne 2 3 4 show ?thesis by blast
qed

theorem get_validation_statistics_returns_copy_witness:
  "\<exists>v w v' w' a w1.
     DataValidator_init None test_world = (Inr v, w) \<and>
     run [ValidateSchema 1 0, ValidateSchema 2 0] (v, w) = (v', w') \<and>
     get_validation_statistics v' w' = (Inr a, w1) \<and>
     heap w1 a = heap w' (validation_stats v') \<and>
     a \<noteq> validation_stats v' \<and>
     heap (w1\<lparr>heap := (heap w1)(a := [(''passed'', PStr ''overwritten'')])\<rparr>)
        (validation_stats v') = heap w' (validation_stats v') \<and>
     returned_statistics
        (run [ValidateSchema 3 0]
           (v', w1\<lparr>heap := (heap w1)(a := [(''passed'', PStr ''overwritten'')])\<rparr>))
       = returned_statistics (run [ValidateSchema 3 0] (v', w1))"
proof -
  let ?cs = "[ValidateSchema 1 0, ValidateSchema 2 0]"
  obtain v w where i: "DataValidator_init None test_world = (Inr v, w)"
    using init_test_world by blast
  obtain v' w' where r: "run ?cs (v, w) = (v', w')" by (cases "run ?cs (v, w)")
  from get_validation_statistics_returns_copy [OF i r] i r show ?thesis by blast
qed

end
